theory Spec2Isabelle
  imports Complex_Main
begin

section \<open>Numbers\<close>

text \<open>
  The program is JavaScript; its numbers are modelled as exact rationals (scores, rates,
  averages) and as integers (millisecond timestamps, counters). \<open>Math.round\<close> rounds
  to the nearest integer, a half going up; \<open>Math.floor\<close> is \<open>floor\<close>.
  The value \<open>undefined\<close> of an optional field is \<open>None\<close>.
\<close>

definition Math_round :: "rat \<Rightarrow> rat" where
  "Math_round x = of_int \<lfloor>x + 1 / 2\<rfloor>"

text \<open>\<open>a || b\<close> on an optional number: \<open>undefined\<close> and \<open>0\<close> are falsy.\<close>

definition or_num :: "rat option \<Rightarrow> rat \<Rightarrow> rat" where
  "or_num a b = (case a of None \<Rightarrow> b | Some v \<Rightarrow> if v = 0 then b else v)"

definition or_int :: "int option \<Rightarrow> int \<Rightarrow> int" where
  "or_int a b = (case a of None \<Rightarrow> b | Some v \<Rightarrow> if v = 0 then b else v)"

text \<open>Truthiness of an optional flag and of an optional page number.\<close>

definition truthy :: "bool option \<Rightarrow> bool" where
  "truthy b = (b = Some True)"

definition truthy_page :: "nat option \<Rightarrow> bool" where
  "truthy_page p = (case p of None \<Rightarrow> False | Some n \<Rightarrow> n \<noteq> 0)"

section \<open>services/nlpService.js: blink-rate compliance\<close>

definition IDEAL_BLINK_RATE_MIN :: rat where
  "IDEAL_BLINK_RATE_MIN = 15"

definition IDEAL_BLINK_RATE_MAX :: rat where
  "IDEAL_BLINK_RATE_MAX = 25"

text \<open>The method \<open>_calculateBlinkCompliance\<close> (an identifier cannot start with an underscore).\<close>

definition calculateBlinkCompliance :: "rat \<Rightarrow> rat" where
  "calculateBlinkCompliance blinkRate =
     (if blinkRate \<ge> IDEAL_BLINK_RATE_MIN \<and> blinkRate \<le> IDEAL_BLINK_RATE_MAX then 100
      else
        let distanceToIdeal = min \<bar>blinkRate - IDEAL_BLINK_RATE_MIN\<bar>
                                  \<bar>blinkRate - IDEAL_BLINK_RATE_MAX\<bar>;
            MAX_DISTANCE = 50;
            penalty = min (distanceToIdeal / MAX_DISTANCE) 1
        in max 0 (100 * (1 - penalty)))"

text \<open>
  The distance from a blink rate outside the ideal band to the nearer of the two bounds,
  as the specification words it.
\<close>

definition nearer_bound_distance :: "rat \<Rightarrow> rat" where
  "nearer_bound_distance b = (if b < 15 then 15 - b else b - 25)"

section \<open>models/Session.js\<close>

datatype interaction_type =
  Highlight | Scroll | Zoom | Page_change | Page_turn | Webcam | Face_metric
  | Break_start | Break_end | Click | Hover | Input | Focus | Blur | Navigation

text \<open>
  The \<open>data\<close> of an interaction is schemaless (\<open>Mixed\<close>). The record holds the fields
  that the aggregation code reads, each of them optional; \<open>from_page\<close> is the field
  \<open>from\<close>. An interaction may have been stored with no \<open>data\<close> at all.
\<close>

record interaction_data =
  lookingAtScreen :: "bool option"
  postureScore :: "rat option"
  blinkRate :: "rat option"
  hasPhone :: "bool option"
  from_page :: "nat option"
  page :: "nat option"
  time_spent :: "rat option"
  duration :: "rat option"

record interaction =
  itype :: interaction_type
  itimestamp :: int
  data :: "interaction_data option"

datatype js_error = TypeError

text \<open>The object that \<open>calculateFinalMetrics\<close> returns; the last four fields are absent
  from the object returned for a session without webcam samples.\<close>

record final_metrics =
  engagementScore :: rat
  attentionRate :: rat
  avgBlinkRate :: rat
  distractionCount :: nat
  durationSeconds :: int
  totalMetricsRecorded :: nat
  avgPostureScore :: "rat option"
  totalHighlights :: "nat option"
  pageTimeAnalytics :: "(nat \<times> rat) list option"
  pagesVisited :: "nat option"

text \<open>
  A stored session, with the fields that the modelled code reads or writes. Its
  \<open>interactions\<close> are an array in every stored document, so \<open>session.interactions || []\<close>
  is the list itself; an empty \<open>metrics\<close> object is \<open>None\<close>.
\<close>

record session =
  student_id :: string
  is_active :: bool
  start_time :: int
  end_time :: "int option"
  duration_seconds :: "int option"
  interactions :: "interaction list"
  metrics :: "final_metrics option"

type_synonym session_store = "string \<Rightarrow> session option"

text \<open>\<open>pageTime[page] = (pageTime[page] || 0) + time\<close> on an object keyed by page.\<close>

fun pageTime_add :: "nat \<Rightarrow> rat \<Rightarrow> (nat \<times> rat) list \<Rightarrow> (nat \<times> rat) list" where
  "pageTime_add p t [] = [(p, 0 + t)]"
| "pageTime_add p t ((k, v) # kvs) =
     (if k = p then (k, or_num (Some v) 0 + t) # kvs else (k, v) # pageTime_add p t kvs)"

fun pageTime_forEach ::
  "interaction list \<Rightarrow> (nat \<times> rat) list \<Rightarrow> js_error + (nat \<times> rat) list" where
  "pageTime_forEach [] pageTime = Inr pageTime"
| "pageTime_forEach (change # rest) pageTime =
     (case data change of
        None \<Rightarrow> Inl TypeError
      | Some d \<Rightarrow>
          let pg = (if truthy_page (from_page d) then from_page d else page d);
              time = or_num (time_spent d) (or_num (duration d) 0)
          in pageTime_forEach rest
               (case pg of
                  None \<Rightarrow> pageTime
                | Some n \<Rightarrow> if n \<noteq> 0 then pageTime_add n time pageTime else pageTime))"

definition getPageTimeAnalytics :: "session \<Rightarrow> js_error + (nat \<times> rat) list" where
  "getPageTimeAnalytics s =
     pageTime_forEach
       (filter (\<lambda>i. itype i = Page_turn \<or> itype i = Page_change) (interactions s)) []"

section \<open>services/nlpService.js: calculateFinalMetrics\<close>

text \<open>The local variables that the \<open>forEach\<close> over the webcam samples updates.\<close>

record aggregation =
  focusedCount :: nat
  postureScoreSum :: rat
  totalBlinkRateSum :: rat
  distractions :: nat
  phoneDetectedFlag :: bool

definition aggregate_sample :: "interaction_data \<Rightarrow> aggregation \<Rightarrow> aggregation" where
  "aggregate_sample d a =
     (let a1 = (if truthy (lookingAtScreen d) then a\<lparr>focusedCount := focusedCount a + 1\<rparr> else a);
          a2 = a1\<lparr>postureScoreSum := postureScoreSum a1 + or_num (postureScore d) 0\<rparr>;
          a3 = a2\<lparr>totalBlinkRateSum := totalBlinkRateSum a2 + or_num (blinkRate d) 0\<rparr>
      in if truthy (hasPhone d) \<and> \<not> phoneDetectedFlag a3
         then a3\<lparr>distractions := distractions a3 + 1, phoneDetectedFlag := True\<rparr>
         else if \<not> truthy (hasPhone d) then a3\<lparr>phoneDetectedFlag := False\<rparr>
         else a3)"

fun webcam_forEach :: "interaction list \<Rightarrow> aggregation \<Rightarrow> js_error + aggregation" where
  "webcam_forEach [] a = Inr a"
| "webcam_forEach (metric # rest) a =
     (case data metric of
        None \<Rightarrow> Inl TypeError
      | Some d \<Rightarrow> webcam_forEach rest (aggregate_sample d a))"

definition initial_aggregation :: aggregation where
  "initial_aggregation =
     \<lparr>focusedCount = 0, postureScoreSum = 0, totalBlinkRateSum = 0, distractions = 0,
      phoneDetectedFlag = False\<rparr>"

definition clamp_score :: "rat \<Rightarrow> rat" where
  "clamp_score x = min 100 (max 0 x)"

text \<open>\<open>ENGAGEMENT_WEIGHTS\<close>, the computation after the loop.\<close>

definition weight_attentionRate :: rat where "weight_attentionRate = 5 / 10"
definition weight_postureScore :: rat where "weight_postureScore = 3 / 10"
definition weight_blinkRateCompliance :: rat where "weight_blinkRateCompliance = 2 / 10"

definition composite_engagement :: "rat \<Rightarrow> rat \<Rightarrow> rat \<Rightarrow> rat" where
  "composite_engagement attention posture compliance =
     Math_round (attention * weight_attentionRate + posture * weight_postureScore
                 + compliance * weight_blinkRateCompliance)"

datatype metrics_result = EmptyObject | Metrics final_metrics

definition calculateFinalMetrics :: "session_store \<Rightarrow> string \<Rightarrow> js_error + metrics_result" where
  "calculateFinalMetrics db sessionId =
     (case db sessionId of
        None \<Rightarrow> Inr EmptyObject
      | Some s \<Rightarrow>
          let webcamMetrics = filter (\<lambda>i. itype i = Webcam) (interactions s) in
          if length webcamMetrics = 0 then
            Inr (Metrics \<lparr>engagementScore = 0, attentionRate = 0, avgBlinkRate = 0,
                   distractionCount = 0, durationSeconds = or_int (duration_seconds s) 0,
                   totalMetricsRecorded = 0, avgPostureScore = None, totalHighlights = None,
                   pageTimeAnalytics = None, pagesVisited = None\<rparr>)
          else
            (case webcam_forEach webcamMetrics initial_aggregation of
               Inl e \<Rightarrow> Inl e
             | Inr a \<Rightarrow>
                 let totalMetrics = length webcamMetrics;
                     attention = Math_round (of_nat (focusedCount a) / of_nat totalMetrics * 100);
                     posture = postureScoreSum a / of_nat totalMetrics;
                     blink = Math_round (totalBlinkRateSum a / of_nat totalMetrics);
                     blinkComplianceScore = calculateBlinkCompliance blink;
                     engagement = composite_engagement attention posture blinkComplianceScore;
                     highlights = filter (\<lambda>i. itype i = Highlight) (interactions s)
                 in (case getPageTimeAnalytics s of
                       Inl e \<Rightarrow> Inl e
                     | Inr pageTime \<Rightarrow>
                         Inr (Metrics \<lparr>engagementScore = clamp_score engagement,
                                attentionRate = attention,
                                avgBlinkRate = blink,
                                distractionCount = distractions a,
                                durationSeconds = or_int (duration_seconds s) 0,
                                totalMetricsRecorded = totalMetrics,
                                avgPostureScore = Some (Math_round posture),
                                totalHighlights = Some (length highlights),
                                pageTimeAnalytics = Some pageTime,
                                pagesVisited = Some (length pageTime)\<rparr>))))"

text \<open>
  What the specification says of the samples of a session, read off the interaction list
  without the loop: the webcam samples, the flags and scores of one sample, and the
  rising edges of a sequence of flags (a position that holds \<open>True\<close> while the position
  before it, if there is one, does not).
\<close>

definition webcam_samples :: "session \<Rightarrow> interaction list" where
  "webcam_samples s = filter (\<lambda>i. itype i = Webcam) (interactions s)"

definition sample_focused :: "interaction \<Rightarrow> bool" where
  "sample_focused i = (case data i of None \<Rightarrow> False | Some d \<Rightarrow> truthy (lookingAtScreen d))"

definition sample_phone :: "interaction \<Rightarrow> bool" where
  "sample_phone i = (case data i of None \<Rightarrow> False | Some d \<Rightarrow> truthy (hasPhone d))"

definition sample_posture :: "interaction \<Rightarrow> rat" where
  "sample_posture i = (case data i of None \<Rightarrow> 0 | Some d \<Rightarrow> or_num (postureScore d) 0)"

definition sample_blink :: "interaction \<Rightarrow> rat" where
  "sample_blink i = (case data i of None \<Rightarrow> 0 | Some d \<Rightarrow> or_num (blinkRate d) 0)"

definition rising_edges :: "bool list \<Rightarrow> nat" where
  "rising_edges hs =
     length (filter (\<lambda>i. hs ! i \<and> (i = 0 \<or> \<not> hs ! (i - 1))) [0..<length hs])"

text \<open>Every interaction that the aggregation reads carries a \<open>data\<close> object.\<close>

definition data_present :: "session \<Rightarrow> bool" where
  "data_present s =
     (\<forall>i \<in> set (interactions s).
        itype i \<in> {Webcam, Page_turn, Page_change} \<longrightarrow> data i \<noteq> None)"

section \<open>models/Metric.js\<close>

datatype emotion =
  Neutral | Happy | Sad | Angry | Surprised | Confused | Focused | Bored | Tired

datatype posture_quality = Excellent | Good | Fair | Poor | Very_poor

datatype distraction_type =
  Phone | Looking_away | Multiple_people | Absence | Other | No_distraction

datatype eye_strain_risk = Low_risk | Medium_risk | High_risk | Critical_risk

text \<open>
  A stored metric document, with the fields of the schema that the aggregation code reads
  (\<open>presence.detected\<close> is \<open>presence_detected\<close>, and so on). The schema gives each of
  them a type and a default, so none is optional.
\<close>

record metric =
  session_id :: string
  user_id :: string
  mtimestamp :: int
  presence_detected :: bool
  blink_rate :: rat
  facial_emotion :: emotion
  posture_score :: rat
  quality :: posture_quality
  distraction_detected :: bool
  distraction_kind :: distraction_type
  attention_score :: rat
  eye_strain :: eye_strain_risk
  fatigue_level :: rat
  break_recommended :: bool
  engagement_score :: rat

datatype anomaly_type = Engagement_drop | Prolonged_absence

datatype severity = High | Medium | Low

text \<open>
  The \<open>details\<close> string of an anomaly: \<open>Engagement dropped by <drop> points\<close> with the
  drop it quotes, or \<open>Student absent for extended period\<close>.
\<close>

datatype anomaly_details = Engagement_dropped_by rat | Student_absent_for_extended_period

record anomaly =
  atype :: anomaly_type
  atimestamp :: int
  aseverity :: severity
  details :: anomaly_details

text \<open>\<open>Metric.find({ session_id: sessionId })\<close> on the collection, in stored order
  (the array that the source calls \<open>metrics\<close> is \<open>found\<close> here).\<close>

definition find_by_session :: "metric list \<Rightarrow> string \<Rightarrow> metric list" where
  "find_by_session collection sessionId = filter (\<lambda>m. session_id m = sessionId) collection"

text \<open>The body of the first loop of \<open>detectAnomalies\<close>, for one index \<open>i\<close>.\<close>

definition drop_step :: "metric list \<Rightarrow> nat \<Rightarrow> anomaly list \<Rightarrow> anomaly list" where
  "drop_step found i anomalies =
     (let drop = engagement_score (found ! (i - 1)) - engagement_score (found ! i)
      in if drop > 30
         then anomalies @
                [\<lparr>atype = Engagement_drop, atimestamp = mtimestamp (found ! i),
                  aseverity = (if drop > 50 then High else Medium),
                  details = Engagement_dropped_by drop\<rparr>]
         else anomalies)"

text \<open>The second loop, with its counter \<open>absenceStreak\<close>.\<close>

fun absence_loop :: "metric list \<Rightarrow> nat \<Rightarrow> anomaly list \<Rightarrow> anomaly list" where
  "absence_loop [] absenceStreak anomalies = anomalies"
| "absence_loop (m # rest) absenceStreak anomalies =
     (if \<not> presence_detected m then
        absence_loop rest (absenceStreak + 1)
          (if absenceStreak + 1 = 5
           then anomalies @
                  [\<lparr>atype = Prolonged_absence, atimestamp = mtimestamp m, aseverity = High,
                    details = Student_absent_for_extended_period\<rparr>]
           else anomalies)
      else absence_loop rest 0 anomalies)"

definition detectAnomalies :: "metric list \<Rightarrow> string \<Rightarrow> anomaly list" where
  "detectAnomalies collection sessionId =
     (let found = find_by_session collection sessionId;
          anomalies = fold (drop_step found) [1..<length found] []
      in absence_loop found 0 anomalies)"

text \<open>
  The specification's side of the anomaly claims: the anomaly of an adjacent pair, at the
  index of its second sample, and the maximal contiguous runs of samples without presence.
\<close>

definition drop_anomaly :: "metric \<Rightarrow> metric \<Rightarrow> anomaly list" where
  "drop_anomaly prev cur =
     (if engagement_score prev - engagement_score cur > 30
      then [\<lparr>atype = Engagement_drop, atimestamp = mtimestamp cur,
             aseverity = (if engagement_score prev - engagement_score cur > 50
                          then High else Medium),
             details = Engagement_dropped_by (engagement_score prev - engagement_score cur)\<rparr>]
      else [])"

definition absent :: "metric \<Rightarrow> bool" where
  "absent m = (\<not> presence_detected m)"

function absence_runs :: "metric list \<Rightarrow> metric list list" where
  "absence_runs [] = []"
| "absence_runs (m # ms) =
     (if absent m then (m # takeWhile absent ms) # absence_runs (dropWhile absent ms)
      else absence_runs ms)"
  by pat_completeness auto
termination
  by (relation "measure length") (auto simp: length_dropWhile_le less_Suc_eq_le)

definition absence_anomaly :: "metric list \<Rightarrow> anomaly" where
  "absence_anomaly run =
     \<lparr>atype = Prolonged_absence, atimestamp = mtimestamp (run ! 4), aseverity = High,
      details = Student_absent_for_extended_period\<rparr>"

section \<open>routes/analytics.js: the day streak of GET /analytics\<close>

text \<open>
  Dates are millisecond timestamps. The server's local time is taken to be UTC plus a
  fixed offset \<open>tz\<close> (in milliseconds), with no daylight-saving change: then
  \<open>setHours(0, 0, 0, 0)\<close> goes back to the local midnight and
  \<open>setDate(getDate() - 1)\<close> on a midnight goes back one day of 24 hours.
\<close>

definition DAY_MS :: int where
  "DAY_MS = 1000 * 60 * 60 * 24"

definition startOfDay :: "int \<Rightarrow> int \<Rightarrow> int" where
  "startOfDay tz t = t - (t + tz) mod DAY_MS"

text \<open>The \<open>for\<close> loop over \<open>sortedUniqueDates\<close>, with \<open>continue\<close> and \<open>break\<close>.\<close>

fun streak_loop :: "int list \<Rightarrow> nat \<Rightarrow> int \<Rightarrow> nat" where
  "streak_loop [] currentStreak currentDate = currentStreak"
| "streak_loop (timestamp # rest) currentStreak currentDate =
     (let dayDiff = (of_int (currentDate - timestamp) :: rat) / of_int DAY_MS in
      if dayDiff < 0 then streak_loop rest currentStreak currentDate
      else if dayDiff = 0 \<or> dayDiff = 1
      then streak_loop rest (currentStreak + 1) (currentDate - DAY_MS)
      else currentStreak)"

text \<open>
  The streak that the handler reports, from the current time and the start times of the
  user's completed sessions (the documents of \<open>allSessions\<close>). The set of distinct
  session days, sorted descending, is \<open>sortedUniqueDates\<close>.
\<close>

definition day_streak :: "int \<Rightarrow> int \<Rightarrow> int list \<Rightarrow> nat" where
  "day_streak tz now start_times =
     (let today = startOfDay tz now;
          sortedUniqueDates = rev (sort (remdups (map (startOfDay tz) start_times)));
          currentStreak = streak_loop sortedUniqueDates 0 today
      in case sortedUniqueDates of
           [] \<Rightarrow> 0
         | latest # _ \<Rightarrow>
             if (of_int (today - latest) :: rat) / of_int DAY_MS > 1 then 0
             else currentStreak)"

text \<open>
  An example clock: one o'clock in the morning (UTC) of the day that starts ten days
  after the epoch, and a start time at ten o'clock on the day \<open>n\<close> days before it.
\<close>

definition example_now :: int where
  "example_now = 10 * DAY_MS + 3600000"

definition days_ago :: "int \<Rightarrow> int" where
  "days_ago n = (10 - n) * DAY_MS + 36000000"

section \<open>HTTP responses\<close>

text \<open>
  What a handler sends: the status (200 when the handler sets none), the \<open>success\<close> and
  \<open>message\<close> fields of the JSON body where it has them, and its payload.
\<close>

record 'a response =
  status :: nat
  success :: "bool option"
  message :: "string option"
  payload :: "'a option"

section \<open>routes/sessions.js: PATCH /:sessionId/end\<close>

text \<open>The \<open>session\<close> object of the success response.\<close>

record ended_session =
  ended_id :: string
  ended_duration_seconds :: int
  ended_end_time :: int

text \<open>
  The handler, on the session store: \<open>now\<close> is the clock read by \<open>new Date()\<close>,
  \<open>uid\<close> the authenticated \<open>req.user.id\<close>. It returns the response and the store
  after the request; \<open>session.save()\<close> is taken to succeed.
\<close>

definition end_session ::
  "int \<Rightarrow> string \<Rightarrow> string \<Rightarrow> session_store \<Rightarrow> ended_session response \<times> session_store" where
  "end_session now uid sessionId db =
     (case db sessionId of
        None \<Rightarrow>
          (\<lparr>status = 404, success = Some False, message = Some ''Session not found'',
            payload = None\<rparr>, db)
      | Some s \<Rightarrow>
          if student_id s \<noteq> uid then
            (\<lparr>status = 403, success = Some False, message = Some ''Access denied'',
              payload = None\<rparr>, db)
          else if \<not> is_active s then
            (\<lparr>status = 400, success = Some False, message = Some ''Session is already ended'',
              payload = None\<rparr>, db)
          else
            let s1 = s\<lparr>is_active := False\<rparr>;
                s2 = s1\<lparr>end_time := Some now\<rparr>;
                s3 = s2\<lparr>duration_seconds := Some ((now - start_time s2) div 1000)\<rparr>
            in (\<lparr>status = 200, success = Some True,
                  message = Some ''Session ended successfully'',
                  payload = Some \<lparr>ended_id = sessionId,
                                   ended_duration_seconds = (now - start_time s2) div 1000,
                                   ended_end_time = now\<rparr>\<rparr>,
                db(sessionId \<mapsto> s3)))"

text \<open>
  A sequence of end requests, each with its clock, its user and the session it names,
  served one after the other.
\<close>

fun end_requests ::
  "(int \<times> string \<times> string) list \<Rightarrow> session_store
     \<Rightarrow> (string \<times> ended_session response) list \<times> session_store" where
  "end_requests [] db = ([], db)"
| "end_requests ((now, uid, sessionId) # rest) db =
     (let (r, db1) = end_session now uid sessionId db;
          (rs, db2) = end_requests rest db1
      in ((sessionId, r) # rs, db2))"

text \<open>The requests of a run that ended the session \<open>sid\<close>.\<close>

definition transitions :: "string \<Rightarrow> (string \<times> ended_session response) list \<Rightarrow> nat" where
  "transitions sid rs = length (filter (\<lambda>(i, r). i = sid \<and> status r = 200) rs)"

section \<open>models/Metric.js: getSessionSummary, and GET /metrics/session/:sessionId/summary\<close>







section \<open>routes/analytics.js: GET /productivity-score\<close>


record productivity_components =
  session_consistency :: rat
  study_time :: rat
  engagement :: rat
  presence :: rat
  focus :: rat
  activity :: rat
















section \<open>Example sessions\<close>

definition webcam_sample :: "bool \<Rightarrow> rat \<Rightarrow> rat \<Rightarrow> bool \<Rightarrow> interaction" where
  "webcam_sample looking posture blink phone =
     \<lparr>itype = Webcam, itimestamp = 0,
      data = Some \<lparr>lookingAtScreen = Some looking, postureScore = Some posture,
                   blinkRate = Some blink, hasPhone = Some phone, from_page = None,
                   page = None, time_spent = None, duration = None\<rparr>\<rparr>"

definition example_session :: session where
  "example_session =
     \<lparr>student_id = ''u1'', is_active = False, start_time = 0, end_time = Some 600000,
      duration_seconds = Some 600,
      interactions =
        [webcam_sample True 80 20 False, webcam_sample True 60 20 True,
         webcam_sample False 70 20 True, webcam_sample True 90 20 False,
         webcam_sample True 100 20 True],
      metrics = None\<rparr>"

definition idle_session :: session where
  "idle_session =
     \<lparr>student_id = ''u1'', is_active = False, start_time = 0, end_time = Some 120000,
      duration_seconds = Some 120,
      interactions = [\<lparr>itype = Highlight, itimestamp = 5, data = None\<rparr>],
      metrics = None\<rparr>"

definition example_store :: session_store where
  "example_store = [''s1'' \<mapsto> example_session, ''s2'' \<mapsto> idle_session]"


definition sample_metric :: "int \<Rightarrow> bool \<Rightarrow> rat \<Rightarrow> metric" where
  "sample_metric t present score =
     \<lparr>session_id = ''s1'', user_id = ''u1'', mtimestamp = t, presence_detected = present,
      blink_rate = 18, facial_emotion = Neutral, posture_score = 75, quality = Good,
      distraction_detected = False, distraction_kind = No_distraction, attention_score = 100,
      eye_strain = Low_risk, fatigue_level = 10, break_recommended = False,
      engagement_score = score\<rparr>"

definition absence_example :: "metric list" where
  "absence_example =
     [sample_metric 1 False 50, sample_metric 2 False 50, sample_metric 3 False 50,
      sample_metric 4 False 50, sample_metric 5 False 50, sample_metric 6 False 50,
      sample_metric 7 False 50, sample_metric 8 True 50, sample_metric 9 False 50,
      sample_metric 10 False 50, sample_metric 11 False 50, sample_metric 12 False 50,
      sample_metric 13 True 50, sample_metric 14 False 50, sample_metric 15 False 50,
      sample_metric 16 False 50, sample_metric 17 False 50, sample_metric 18 False 50]"

definition drop_example :: "rat \<Rightarrow> rat \<Rightarrow> metric list" where
  "drop_example a b = [sample_metric 1000 True a, sample_metric 2000 True b]"


definition active_session :: session where
  "active_session =
     \<lparr>student_id = ''u1'', is_active = True, start_time = 100000, end_time = None,
      duration_seconds = Some 0, interactions = [], metrics = None\<rparr>"



section \<open>Blink-rate compliance\<close>

text \<open>
  Claim C4. For every blink rate \<open>b \<ge> 0\<close> the compliance function returns 100 when
  \<open>15 \<le> b \<le> 25\<close>, and otherwise \<open>max(0, 100 * (1 - min(dist, 50) / 50))\<close>, where
  \<open>dist\<close> is the distance from \<open>b\<close> to the nearer of 15 and 25. In particular the
  compliance of 20, 15 and 25 is 100, that of 0 is 70 and that of 100 is 0.
\<close>

theorem blink_compliance_formula:
  assumes "0 \<le> b"
  shows "calculateBlinkCompliance b =
           (if 15 \<le> b \<and> b \<le> 25 then 100
            else max 0 (100 * (1 - min (nearer_bound_distance b) 50 / 50)))
         \<and> calculateBlinkCompliance 20 = 100
         \<and> calculateBlinkCompliance 15 = 100
         \<and> calculateBlinkCompliance 25 = 100
         \<and> calculateBlinkCompliance 0 = 70
         \<and> calculateBlinkCompliance 100 = 0"
proof -
  have general: "calculateBlinkCompliance b =
           (if 15 \<le> b \<and> b \<le> 25 then 100
            else max 0 (100 * (1 - min (nearer_bound_distance b) 50 / 50)))"
  proof (cases "15 \<le> b \<and> b \<le> 25")
    case True
    then show ?thesis
      by (simp add: calculateBlinkCompliance_def IDEAL_BLINK_RATE_MIN_def
          IDEAL_BLINK_RATE_MAX_def)
  next
    case False
    have dist: "min \<bar>b - 15\<bar> \<bar>b - 25\<bar> = nearer_bound_distance b"
      using False by (auto simp: nearer_bound_distance_def min_def abs_if)
    have pen: "min (nearer_bound_distance b / 50) 1 = min (nearer_bound_distance b) 50 / 50"
      by (auto simp: min_def)
    have "calculateBlinkCompliance b =
            max 0 (100 * (1 - min (min \<bar>b - 15\<bar> \<bar>b - 25\<bar> / 50) 1))"
    proof -
      from False consider "b < 15" | "25 < b" by fastforce
      then show ?thesis
        by cases (simp_all add: calculateBlinkCompliance_def IDEAL_BLINK_RATE_MIN_def
            IDEAL_BLINK_RATE_MAX_def Let_def)
    qed
    also have "\<dots> = max 0 (100 * (1 - min (nearer_bound_distance b) 50 / 50))"
      by (simp only: dist pen)
    finally show ?thesis
      using False by auto
  qed
  have examples: "calculateBlinkCompliance 20 = 100" "calculateBlinkCompliance 15 = 100"
    "calculateBlinkCompliance 25 = 100" "calculateBlinkCompliance 0 = 70"
    "calculateBlinkCompliance 100 = 0"
    by (simp_all add: calculateBlinkCompliance_def IDEAL_BLINK_RATE_MIN_def
        IDEAL_BLINK_RATE_MAX_def Let_def)
  from general examples show ?thesis by simp
qed

theorem blink_compliance_formula_witness:
  "(0::rat) \<le> 40 \<and> calculateBlinkCompliance 40 = 70 \<and> nearer_bound_distance 40 = 15"
proof -
  have h: "(0::rat) \<le> 40" by simp
  from blink_compliance_formula [OF h]
  have "calculateBlinkCompliance 40 =
          (if (15::rat) \<le> 40 \<and> (40::rat) \<le> 25 then 100
           else max 0 (100 * (1 - min (nearer_bound_distance 40) 50 / 50)))"
    by blast
  then show ?thesis by (simp add: nearer_bound_distance_def)
qed

section \<open>The session aggregator\<close>

lemma edges_from_Cons:
  "length (filter (\<lambda>i. (h # hs) ! i \<and> \<not> (p # h # hs) ! i) [0..<length (h # hs)]) =
     (if h \<and> \<not> p then 1 else 0)
     + length (filter (\<lambda>i. hs ! i \<and> \<not> (h # hs) ! i) [0..<length hs])"
proof -
  have "[0..<length (h # hs)] = 0 # map Suc [0..<length hs]"
    by (simp add: upt_conv_Cons map_Suc_upt del: upt_Suc)
  then show ?thesis
    by (simp add: filter_map comp_def del: upt_Suc)
qed

lemma rising_edges_prev:
  "rising_edges hs = length (filter (\<lambda>i. hs ! i \<and> \<not> (False # hs) ! i) [0..<length hs])"
  unfolding rising_edges_def
  by (rule arg_cong [where f = length], rule filter_cong) (auto simp: nth_Cons')

lemma fold_distractions:
  "distractions (fold aggregate_sample ds a) =
     distractions a
     + length (filter (\<lambda>i. map (\<lambda>d. truthy (hasPhone d)) ds ! i
                          \<and> \<not> (phoneDetectedFlag a # map (\<lambda>d. truthy (hasPhone d)) ds) ! i)
                 [0..<length ds])"
proof (induction ds arbitrary: a)
  case Nil
  then show ?case by simp
next
  case (Cons d ds)
  have flag: "phoneDetectedFlag (aggregate_sample d a) = truthy (hasPhone d)"
    by (simp add: aggregate_sample_def Let_def)
  have cnt: "distractions (aggregate_sample d a) =
      distractions a + (if truthy (hasPhone d) \<and> \<not> phoneDetectedFlag a then 1 else 0)"
    by (simp add: aggregate_sample_def Let_def)
  show ?case
    using edges_from_Cons [of "truthy (hasPhone d)" "map (\<lambda>d. truthy (hasPhone d)) ds" "phoneDetectedFlag a"]
    by (simp add: Cons.IH flag cnt del: upt_Suc)
qed


lemma fold_focusedCount:
  "focusedCount (fold aggregate_sample ds a) =
     focusedCount a + length (filter (\<lambda>d. truthy (lookingAtScreen d)) ds)"
  by (induction ds arbitrary: a) (simp_all add: aggregate_sample_def Let_def)

lemma fold_postureScoreSum:
  "postureScoreSum (fold aggregate_sample ds a) =
     postureScoreSum a + sum_list (map (\<lambda>d. or_num (postureScore d) 0) ds)"
  by (induction ds arbitrary: a) (simp_all add: aggregate_sample_def Let_def)

lemma fold_totalBlinkRateSum:
  "totalBlinkRateSum (fold aggregate_sample ds a) =
     totalBlinkRateSum a + sum_list (map (\<lambda>d. or_num (blinkRate d) 0) ds)"
  by (induction ds arbitrary: a) (simp_all add: aggregate_sample_def Let_def)

lemma webcam_forEach_fold:
  "\<forall>i \<in> set ms. data i \<noteq> None \<Longrightarrow>
   webcam_forEach ms a = Inr (fold aggregate_sample (List.map_filter data ms) a)"
  by (induction ms arbitrary: a) (auto simp: List.map_filter_simps)

lemma map_filter_data_map:
  "\<forall>i \<in> set ms. data i \<noteq> None \<Longrightarrow>
   map f (List.map_filter data ms) = map (\<lambda>i. case data i of None \<Rightarrow> z | Some d \<Rightarrow> f d) ms"
  by (induction ms) (auto simp: List.map_filter_simps)

lemma map_filter_data_length:
  "\<forall>i \<in> set ms. data i \<noteq> None \<Longrightarrow> length (List.map_filter data ms) = length ms"
  by (induction ms) (auto simp: List.map_filter_simps)

lemma map_filter_data_filter:
  "\<forall>i \<in> set ms. data i \<noteq> None \<Longrightarrow>
   length (filter P (List.map_filter data ms))
     = length (filter (\<lambda>i. case data i of None \<Rightarrow> False | Some d \<Rightarrow> P d) ms)"
  by (induction ms) (auto simp: List.map_filter_simps)

text \<open>The loop over the webcam samples, in closed form.\<close>

lemma webcam_forEach_closed:
  assumes "\<forall>i \<in> set ms. data i \<noteq> None"
  shows "\<exists>a. webcam_forEach ms initial_aggregation = Inr a
           \<and> focusedCount a = length (filter sample_focused ms)
           \<and> postureScoreSum a = sum_list (map sample_posture ms)
           \<and> totalBlinkRateSum a = sum_list (map sample_blink ms)
           \<and> distractions a = rising_edges (map sample_phone ms)"
proof -
  let ?ds = "List.map_filter data ms"
  let ?a = "fold aggregate_sample ?ds initial_aggregation"
  have run: "webcam_forEach ms initial_aggregation = Inr ?a"
    by (rule webcam_forEach_fold [OF assms])
  have foc: "focusedCount ?a = length (filter sample_focused ms)"
    unfolding fold_focusedCount map_filter_data_filter [OF assms]
    by (simp add: initial_aggregation_def sample_focused_def [abs_def])
  have pos: "postureScoreSum ?a = sum_list (map sample_posture ms)"
    unfolding fold_postureScoreSum map_filter_data_map [OF assms, where z = 0]
    by (simp add: initial_aggregation_def sample_posture_def [abs_def])
  have bli: "totalBlinkRateSum ?a = sum_list (map sample_blink ms)"
    unfolding fold_totalBlinkRateSum map_filter_data_map [OF assms, where z = 0]
    by (simp add: initial_aggregation_def sample_blink_def [abs_def])
  have ph: "map (\<lambda>d. truthy (hasPhone d)) ?ds = map sample_phone ms"
    unfolding map_filter_data_map [OF assms, where z = False]
    by (simp add: sample_phone_def [abs_def])
  have dis: "distractions ?a = rising_edges (map sample_phone ms)"
    unfolding fold_distractions rising_edges_prev ph map_filter_data_length [OF assms]
    by (simp add: initial_aggregation_def)
  from run foc pos bli dis show ?thesis by blast
qed

lemma pageTime_forEach_total:
  "\<forall>i \<in> set cs. data i \<noteq> None \<Longrightarrow> \<exists>pt. pageTime_forEach cs acc = Inr pt"
  by (induction cs arbitrary: acc) (auto simp: Let_def)

lemma getPageTimeAnalytics_total:
  "data_present s \<Longrightarrow> \<exists>pt. getPageTimeAnalytics s = Inr pt"
  unfolding getPageTimeAnalytics_def data_present_def
  by (rule pageTime_forEach_total) auto




lemma calculateFinalMetrics_closed:
  assumes found: "db sid = Some s" and present: "data_present s"
    and nonempty: "webcam_samples s \<noteq> []"
  shows "\<exists>pt. calculateFinalMetrics db sid =
           Inr (Metrics
             \<lparr>engagementScore =
                clamp_score (composite_engagement
                  (Math_round (of_nat (length (filter sample_focused (webcam_samples s)))
                               / of_nat (length (webcam_samples s)) * 100))
                  (sum_list (map sample_posture (webcam_samples s))
                     / of_nat (length (webcam_samples s)))
                  (calculateBlinkCompliance
                     (Math_round (sum_list (map sample_blink (webcam_samples s))
                                  / of_nat (length (webcam_samples s)))))),
              attentionRate =
                Math_round (of_nat (length (filter sample_focused (webcam_samples s)))
                               / of_nat (length (webcam_samples s)) * 100),
              avgBlinkRate =
                Math_round (sum_list (map sample_blink (webcam_samples s))
                                  / of_nat (length (webcam_samples s))),
              distractionCount = rising_edges (map sample_phone (webcam_samples s)),
              durationSeconds = or_int (duration_seconds s) 0,
              totalMetricsRecorded = length (webcam_samples s),
              avgPostureScore =
                Some (Math_round (sum_list (map sample_posture (webcam_samples s))
                     / of_nat (length (webcam_samples s)))),
              totalHighlights =
                Some (length (filter (\<lambda>i. itype i = Highlight) (interactions s))),
              pageTimeAnalytics = Some pt,
              pagesVisited = Some (length pt)\<rparr>)"
proof -
  have "\<forall>i \<in> set (webcam_samples s). data i \<noteq> None"
    using present by (auto simp: data_present_def webcam_samples_def)
  from webcam_forEach_closed [OF this] obtain a where
    a: "webcam_forEach (webcam_samples s) initial_aggregation = Inr a"
      "focusedCount a = length (filter sample_focused (webcam_samples s))"
      "postureScoreSum a = sum_list (map sample_posture (webcam_samples s))"
      "totalBlinkRateSum a = sum_list (map sample_blink (webcam_samples s))"
      "distractions a = rising_edges (map sample_phone (webcam_samples s))"
    by blast
  from getPageTimeAnalytics_total [OF present] obtain pt where
    pt: "getPageTimeAnalytics s = Inr pt" by blast
  have ne: "filter (\<lambda>i. itype i = Webcam) (interactions s) \<noteq> []"
    using nonempty by (simp add: webcam_samples_def)
  show ?thesis
    using a pt ne unfolding webcam_samples_def
    by (simp add: calculateFinalMetrics_def found Let_def)
qed

lemma calculateFinalMetrics_empty:
  assumes found: "db sid = Some s" and empty: "webcam_samples s = []"
  shows "calculateFinalMetrics db sid =
           Inr (Metrics \<lparr>engagementScore = 0, attentionRate = 0, avgBlinkRate = 0,
                   distractionCount = 0, durationSeconds = or_int (duration_seconds s) 0,
                   totalMetricsRecorded = 0, avgPostureScore = None, totalHighlights = None,
                   pageTimeAnalytics = None, pagesVisited = None\<rparr>)"
  using empty by (simp add: calculateFinalMetrics_def found Let_def webcam_samples_def)


lemma example_session_facts:
  "example_store ''s1'' = Some example_session" "data_present example_session"
  "webcam_samples example_session =
     [webcam_sample True 80 20 False, webcam_sample True 60 20 True,
      webcam_sample False 70 20 True, webcam_sample True 90 20 False,
      webcam_sample True 100 20 True]"
  by (simp_all add: example_store_def example_session_def data_present_def
      webcam_samples_def webcam_sample_def)

lemma webcam_sample_simps:
  "sample_focused (webcam_sample l p b h) = l" "sample_posture (webcam_sample l p b h) = p"
  "sample_blink (webcam_sample l p b h) = b" "sample_phone (webcam_sample l p b h) = h"
  by (simp_all add: webcam_sample_def sample_focused_def sample_posture_def sample_blink_def
      sample_phone_def truthy_def or_num_def)




text \<open>
  Claim C2. For a session whose interaction list holds no webcam sample,
  \<open>calculateFinalMetrics\<close> raises nothing and returns \<open>engagementScore = 0\<close>,
  \<open>attentionRate = 0\<close>, \<open>avgBlinkRate = 0\<close>, \<open>distractionCount = 0\<close> and
  \<open>totalMetricsRecorded = 0\<close>, with \<open>durationSeconds\<close> read from the session record
  (0 when the record has none).
\<close>

theorem no_webcam_samples_zero_snapshot:
  assumes "db sid = Some s" and "webcam_samples s = []"
  shows "\<exists>m. calculateFinalMetrics db sid = Inr (Metrics m)
           \<and> engagementScore m = 0 \<and> attentionRate m = 0 \<and> avgBlinkRate m = 0
           \<and> distractionCount m = 0 \<and> totalMetricsRecorded m = 0
           \<and> durationSeconds m = (case duration_seconds s of None \<Rightarrow> 0 | Some d \<Rightarrow> d)"
proof -
  have "or_int (duration_seconds s) 0 = (case duration_seconds s of None \<Rightarrow> 0 | Some d \<Rightarrow> d)"
    by (simp add: or_int_def split: option.splits)
  then show ?thesis
    by (simp add: calculateFinalMetrics_empty [of db sid s, OF assms])
qed

theorem no_webcam_samples_zero_snapshot_witness:
  "example_store ''s2'' = Some idle_session \<and> webcam_samples idle_session = []
   \<and> (\<exists>m. calculateFinalMetrics example_store ''s2'' = Inr (Metrics m)
          \<and> engagementScore m = 0 \<and> attentionRate m = 0 \<and> avgBlinkRate m = 0
          \<and> distractionCount m = 0 \<and> totalMetricsRecorded m = 0
          \<and> durationSeconds m = 120)"
proof -
  have h1: "example_store ''s2'' = Some idle_session"
    by (simp add: example_store_def)
  have h2: "webcam_samples idle_session = []"
    by (simp add: webcam_samples_def idle_session_def)
  have d: "duration_seconds idle_session = Some 120"
    by (simp add: idle_session_def)
  from no_webcam_samples_zero_snapshot [of example_store "''s2''" idle_session, OF h1 h2]
  show ?thesis
    unfolding d using h1 h2 by simp
qed

text \<open>
  Claim C3. For every sequence of webcam samples (each carrying its \<open>data\<close> object), the
  \<open>distractionCount\<close> that \<open>calculateFinalMetrics\<close> returns is the number of rising
  edges of \<open>hasPhone\<close>: the positions where it is true and was false or absent at the
  position before, the position before the first sample counting as false. The sequence
  \<open>[false, true, true, false, true]\<close> has two rising edges.
\<close>

theorem distraction_count_rising_edges:
  assumes "db sid = Some s" and "data_present s"
  shows "(\<exists>m. calculateFinalMetrics db sid = Inr (Metrics m)
            \<and> distractionCount m = rising_edges (map sample_phone (webcam_samples s)))
         \<and> rising_edges [False, True, True, False, True] = 2"
proof -
  have general: "\<exists>m. calculateFinalMetrics db sid = Inr (Metrics m)
            \<and> distractionCount m = rising_edges (map sample_phone (webcam_samples s))"
  proof (cases "webcam_samples s = []")
    case True
    show ?thesis
      using True
      by (simp add: calculateFinalMetrics_empty [of db sid s, OF assms(1) True]
          rising_edges_def)
  next
    case False
    from calculateFinalMetrics_closed [of db sid s, OF assms False]
    show ?thesis by fastforce
  qed
  have example: "rising_edges [False, True, True, False, True] = 2"
    by (simp add: rising_edges_def upt_rec)
  from general example show ?thesis by blast
qed

theorem distraction_count_rising_edges_witness:
  "example_store ''s1'' = Some example_session \<and> data_present example_session
   \<and> map sample_phone (webcam_samples example_session) = [False, True, True, False, True]
   \<and> (\<exists>m. calculateFinalMetrics example_store ''s1'' = Inr (Metrics m)
          \<and> distractionCount m = 2)"
proof -
  have phones: "map sample_phone (webcam_samples example_session)
                  = [False, True, True, False, True]"
    by (simp add: example_session_facts(3) webcam_sample_simps)
  from distraction_count_rising_edges
         [of example_store "''s1''" example_session, OF example_session_facts(1,2)]
  show ?thesis
    unfolding phones using example_session_facts(1,2) by auto
qed

section \<open>Anomaly detection\<close>

lemma fold_drop_step:
  "fold (drop_step ms) is acc =
     acc @ concat (map (\<lambda>i. drop_anomaly (ms ! (i - 1)) (ms ! i)) is)"
  by (induction "is" arbitrary: acc) (simp_all add: drop_step_def drop_anomaly_def Let_def)

lemma absence_loop_append:
  "absence_loop ms k acc = acc @ absence_loop ms k []"
proof (induction ms arbitrary: k acc)
  case Nil
  then show ?case by simp
next
  case (Cons m ms)
  let ?a = "\<lparr>atype = Prolonged_absence, atimestamp = mtimestamp m,
        aseverity = High, details = Student_absent_for_extended_period\<rparr>"
  show ?case
  proof (cases "presence_detected m")
    case True
    then show ?thesis
      using Cons.IH [of 0 acc] by simp
  next
    case False
    show ?thesis
    proof (cases "k + 1 = 5")
      case True
      have L: "absence_loop (m # ms) k acc = absence_loop ms (k + 1) (acc @ [?a])"
        using False True by simp
      have R: "absence_loop (m # ms) k [] = absence_loop ms (k + 1) [?a]"
        using False True by simp
      show ?thesis
        unfolding L R
        by (subst Cons.IH, subst (2) Cons.IH) simp
    next
      case neq: False
      have L: "absence_loop (m # ms) k acc = absence_loop ms (k + 1) acc"
        using False neq by simp
      have R: "absence_loop (m # ms) k [] = absence_loop ms (k + 1) []"
        using False neq by simp
      show ?thesis
        unfolding L R by (rule Cons.IH)
    qed
  qed
qed

lemma absence_loop_run:
  assumes "\<forall>m \<in> set run. absent m"
  shows "absence_loop (run @ rest) k [] =
           (if k < 5 \<and> 5 \<le> k + length run
            then [\<lparr>atype = Prolonged_absence, atimestamp = mtimestamp (run ! (4 - k)),
                   aseverity = High, details = Student_absent_for_extended_period\<rparr>]
            else [])
           @ absence_loop rest (k + length run) []"
  using assms
proof (induction run arbitrary: k)
  case Nil
  then show ?case by simp
next
  case (Cons m run)
  have abs: "\<not> presence_detected m" using Cons.prems by (simp add: absent_def)
  have IH: "absence_loop (run @ rest) (Suc k) [] =
           (if Suc k < 5 \<and> 5 \<le> Suc k + length run
            then [\<lparr>atype = Prolonged_absence, atimestamp = mtimestamp (run ! (4 - Suc k)),
                   aseverity = High, details = Student_absent_for_extended_period\<rparr>]
            else [])
           @ absence_loop rest (Suc k + length run) []"
    using Cons.IH [of "Suc k"] Cons.prems by simp
  show ?case
  proof (cases "Suc k = 5")
    case True
    then have k: "k = 4" by simp
    show ?thesis
      using abs IH
      by (simp add: k absence_loop_append [of _ _ "[_]"])
  next
    case False
    have nth: "(m # run) ! (4 - k) = run ! (4 - Suc k)" if "Suc k < 5"
      using that by (simp add: nth_Cons')
    show ?thesis
      using abs IH False nth by auto
  qed
qed

lemma absence_loop_reset:
  "rest = [] \<or> \<not> absent (hd rest) \<Longrightarrow> absence_loop rest k [] = absence_loop rest 0 []"
  by (cases rest) (auto simp: absent_def)

lemma dropWhile_absent_head:
  "dropWhile absent ms = [] \<or> \<not> absent (hd (dropWhile absent ms))"
  using hd_dropWhile [of absent ms] by blast

text \<open>The runs are non-empty, hold absent samples only, and together are all of them.\<close>

lemma absence_runs_cover:
  "concat (absence_runs ms) = filter absent ms
   \<and> (\<forall>run \<in> set (absence_runs ms). run \<noteq> [] \<and> (\<forall>m \<in> set run. absent m))"
proof (induction ms rule: absence_runs.induct)
  case 1
  then show ?case by simp
next
  case (2 m ms)
  show ?case
  proof (cases "absent m")
    case True
    have tw: "filter absent (takeWhile absent ms) = takeWhile absent ms"
      by (induction ms) simp_all
    have "filter absent ms = filter absent (takeWhile absent ms @ dropWhile absent ms)"
      by (simp only: takeWhile_dropWhile_id)
    also have "\<dots> = takeWhile absent ms @ filter absent (dropWhile absent ms)"
      by (simp only: filter_append tw)
    finally have "filter absent ms =
        takeWhile absent ms @ filter absent (dropWhile absent ms)" .
    then show ?thesis
      using True "2.IH"(1) [OF True] by (auto dest: set_takeWhileD)
  next
    case False
    then show ?thesis using "2.IH"(2) by simp
  qed
qed

lemma absence_loop_runs:
  "absence_loop ms 0 [] = map absence_anomaly (filter (\<lambda>run. 5 \<le> length run) (absence_runs ms))"
proof (induction ms rule: absence_runs.induct)
  case 1
  then show ?case by simp
next
  case (2 m ms)
  show ?case
  proof (cases "absent m")
    case True
    let ?run = "m # takeWhile absent ms"
    let ?rest = "dropWhile absent ms"
    have split: "m # ms = ?run @ ?rest" by simp
    have all: "\<forall>x \<in> set ?run. absent x"
      using True by (auto dest: set_takeWhileD)
    have "absence_loop (m # ms) 0 [] = absence_loop (?run @ ?rest) 0 []"
      by simp
    also have "\<dots> = (if 5 \<le> length ?run then [absence_anomaly ?run] else [])
                      @ absence_loop ?rest (length ?run) []"
      using absence_loop_run [OF all, of ?rest 0] by (simp add: absence_anomaly_def)
    also have "absence_loop ?rest (length ?run) [] = absence_loop ?rest 0 []"
      by (rule absence_loop_reset [OF dropWhile_absent_head])
    also have "absence_loop ?rest 0 [] =
        map absence_anomaly (filter (\<lambda>run. 5 \<le> length run) (absence_runs ?rest))"
      using "2.IH"(1) [OF True] .
    finally show ?thesis
      using True by simp
  next
    case False
    then show ?thesis
      using "2.IH"(2) by (simp add: absent_def)
  qed
qed

lemma drop_anomaly_type: "a \<in> set (drop_anomaly p c) \<Longrightarrow> atype a = Engagement_drop"
  by (auto simp: drop_anomaly_def split: if_splits)

lemma filter_drop_anomalies:
  "filter (\<lambda>a. atype a = Engagement_drop) (concat (map (\<lambda>i. drop_anomaly (f i) (g i)) is))
     = concat (map (\<lambda>i. drop_anomaly (f i) (g i)) is)"
  "filter (\<lambda>a. atype a = Prolonged_absence) (concat (map (\<lambda>i. drop_anomaly (f i) (g i)) is))
     = []"
  by (induction "is") (auto simp: drop_anomaly_def)

lemma filter_absence_anomalies:
  "filter (\<lambda>a. atype a = Prolonged_absence) (map absence_anomaly runs) = map absence_anomaly runs"
  "filter (\<lambda>a. atype a = Engagement_drop) (map absence_anomaly runs) = []"
  by (induction runs) (auto simp: absence_anomaly_def)

lemma detectAnomalies_closed:
  "detectAnomalies collection sid =
     concat (map (\<lambda>i. drop_anomaly (find_by_session collection sid ! (i - 1))
                                    (find_by_session collection sid ! i))
                 [1..<length (find_by_session collection sid)])
     @ map absence_anomaly
         (filter (\<lambda>run. 5 \<le> length run) (absence_runs (find_by_session collection sid)))"
  unfolding detectAnomalies_def Let_def
  by (subst absence_loop_append) (simp add: fold_drop_step absence_loop_runs)


lemma absence_example_runs:
  "find_by_session absence_example ''s1'' = absence_example"
  "map (map mtimestamp) (absence_runs absence_example) =
     [[1, 2, 3, 4, 5, 6, 7], [9, 10, 11, 12], [14, 15, 16, 17, 18]]"
  by (simp_all add: absence_example_def find_by_session_def sample_metric_def absent_def)

text \<open>
  Claim C5. Over the sequence of a session's samples, anomaly detection emits exactly one
  \<open>prolonged_absence\<close> anomaly, of severity high, for each maximal contiguous run of at
  least five samples with \<open>presence.detected == false\<close>, at the timestamp of the fifth
  sample of that run, and none besides.
\<close>

theorem prolonged_absence_once_per_run:
  "filter (\<lambda>a. atype a = Prolonged_absence) (detectAnomalies collection sid) =
     map (\<lambda>run. \<lparr>atype = Prolonged_absence, atimestamp = mtimestamp (run ! 4),
                  aseverity = High, details = Student_absent_for_extended_period\<rparr>)
       (filter (\<lambda>run. 5 \<le> length run) (absence_runs (find_by_session collection sid)))"
  unfolding detectAnomalies_closed
  by (simp add: filter_drop_anomalies filter_absence_anomalies absence_anomaly_def [abs_def])

theorem prolonged_absence_once_per_run_witness:
  "map (map mtimestamp) (absence_runs (find_by_session absence_example ''s1'')) =
     [[1, 2, 3, 4, 5, 6, 7], [9, 10, 11, 12], [14, 15, 16, 17, 18]]
   \<and> map atimestamp (filter (\<lambda>a. atype a = Prolonged_absence)
                        (detectAnomalies absence_example ''s1'')) = [5, 18]"
proof -
  have "map atimestamp (filter (\<lambda>a. atype a = Prolonged_absence)
                        (detectAnomalies absence_example ''s1'')) =
        map (\<lambda>run. mtimestamp (run ! 4))
          (filter (\<lambda>run. 5 \<le> length run) (absence_runs absence_example))"
    unfolding prolonged_absence_once_per_run absence_example_runs(1)
    by (simp add: comp_def)
  also have "\<dots> = [5, 18]"
    by (simp add: absence_example_def sample_metric_def absent_def)
  finally show ?thesis
    by (simp add: absence_example_runs)
qed

text \<open>
  Claim C6. For every adjacent pair \<open>(prev, cur)\<close> of a session's samples, anomaly
  detection emits an \<open>engagement_drop\<close> anomaly at the timestamp of \<open>cur\<close> if and only
  if \<open>prev.engagementScore - cur.engagementScore > 30\<close>, of severity high when the drop
  exceeds 50 and medium otherwise, and it emits no other \<open>engagement_drop\<close> anomaly.
  Adjacent scores 80, 40 give one medium anomaly; 90, 20 give one high anomaly.
\<close>

theorem engagement_drop_adjacent_pairs:
  "filter (\<lambda>a. atype a = Engagement_drop) (detectAnomalies collection sid) =
     concat (map (\<lambda>i. drop_anomaly (find_by_session collection sid ! (i - 1))
                                    (find_by_session collection sid ! i))
                 [1..<length (find_by_session collection sid)])
   \<and> detectAnomalies (drop_example 80 40) ''s1'' =
       [\<lparr>atype = Engagement_drop, atimestamp = 2000, aseverity = Medium,
         details = Engagement_dropped_by 40\<rparr>]
   \<and> detectAnomalies (drop_example 90 20) ''s1'' =
       [\<lparr>atype = Engagement_drop, atimestamp = 2000, aseverity = High,
         details = Engagement_dropped_by 70\<rparr>]"
proof -
  have general: "filter (\<lambda>a. atype a = Engagement_drop) (detectAnomalies collection sid) =
     concat (map (\<lambda>i. drop_anomaly (find_by_session collection sid ! (i - 1))
                                    (find_by_session collection sid ! i))
                 [1..<length (find_by_session collection sid)])"
    unfolding detectAnomalies_closed
    by (simp add: filter_drop_anomalies filter_absence_anomalies)
  have examples: "detectAnomalies (drop_example 80 40) ''s1'' =
       [\<lparr>atype = Engagement_drop, atimestamp = 2000, aseverity = Medium,
         details = Engagement_dropped_by 40\<rparr>]"
    "detectAnomalies (drop_example 90 20) ''s1'' =
       [\<lparr>atype = Engagement_drop, atimestamp = 2000, aseverity = High,
         details = Engagement_dropped_by 70\<rparr>]"
    by (simp_all add: detectAnomalies_def drop_example_def find_by_session_def
        sample_metric_def drop_step_def Let_def)
  from general examples show ?thesis by blast
qed

section \<open>The day streak\<close>

text \<open>
  Claim C7. The day streak is the number of consecutive calendar days, walking backward
  from today, that each hold a completed session, stopping at the first missing day;
  sessions today, yesterday and the day before give 3, and sessions today and the day
  before yesterday, with none yesterday, give 1. The handler returns 3 for the first
  set of sessions, and 2 for the second: after it has counted today it moves
  \<open>currentDate\<close> to yesterday, and a session day one day before \<open>currentDate\<close> is
  accepted again, so the missing yesterday does not end the walk.
\<close>

theorem streak_counts_across_gap:
  "day_streak 0 example_now [example_now - 1800000, days_ago 1, days_ago 2] = 3
   \<and> day_streak 0 example_now [example_now - 1800000, days_ago 2] = 2"
  by (simp add: day_streak_def startOfDay_def example_now_def days_ago_def DAY_MS_def Let_def)

section \<open>Ending a session\<close>

lemma end_session_inactive:
  assumes "db sid = Some s" and "\<not> is_active s"
  shows "snd (end_session now uid sid db) = db"
    and "status (fst (end_session now uid sid db)) \<noteq> 200"
    and "uid = student_id s \<Longrightarrow>
         fst (end_session now uid sid db) =
           \<lparr>status = 400, success = Some False, message = Some ''Session is already ended'',
            payload = None\<rparr>"
    and "uid \<noteq> student_id s \<Longrightarrow>
         fst (end_session now uid sid db) =
           \<lparr>status = 403, success = Some False, message = Some ''Access denied'',
            payload = None\<rparr>"
  using assms by (auto simp: end_session_def)

lemma end_session_other:
  "sid' \<noteq> sid \<Longrightarrow> snd (end_session now uid sid' db) sid = db sid"
  by (auto simp: end_session_def Let_def split: option.splits)

lemma end_session_success:
  assumes "status (fst (end_session now uid sid db)) = 200"
  shows "\<exists>s. db sid = Some s \<and> is_active s
           \<and> (\<exists>s'. snd (end_session now uid sid db) sid = Some s' \<and> \<not> is_active s')"
  using assms by (auto simp: end_session_def Let_def split: option.splits if_splits)

lemma end_session_keeps_inactive:
  assumes "db sid = Some s" and "\<not> is_active s"
  shows "snd (end_session now uid sid' db) sid = Some s"
proof (cases "sid' = sid")
  case True
  then show ?thesis using end_session_inactive(1) [of db sid s, OF assms] assms(1) by simp
next
  case False
  then show ?thesis using end_session_other [OF False] assms(1) by simp
qed

lemma end_session_keeps_missing:
  assumes "db sid = None"
  shows "snd (end_session now uid sid' db) sid = None"
  using assms by (cases "sid' = sid") (auto simp: end_session_def Let_def split: option.splits)

lemma end_session_missing_status:
  assumes "db sid = None"
  shows "status (fst (end_session now uid sid db)) \<noteq> 200"
  using assms by (simp add: end_session_def)

lemma end_requests_Cons:
  "end_requests ((now, uid, sid') # rest) db =
     ((sid', fst (end_session now uid sid' db))
        # fst (end_requests rest (snd (end_session now uid sid' db))),
      snd (end_requests rest (snd (end_session now uid sid' db))))"
  by (simp add: Let_def split: prod.splits)

lemma transitions_Cons:
  "transitions sid ((i, r) # rs) =
     (if i = sid \<and> status r = 200 then 1 else 0) + transitions sid rs"
  by (simp add: transitions_def)

lemma no_transition_when_inactive:
  "db sid = Some s \<Longrightarrow> \<not> is_active s \<Longrightarrow> transitions sid (fst (end_requests reqs db)) = 0"
proof (induction reqs arbitrary: db)
  case Nil
  then show ?case by (simp add: transitions_def)
next
  case (Cons req reqs)
  obtain now uid sid' where req: "req = (now, uid, sid')" by (cases req)
  have keep: "snd (end_session now uid sid' db) sid = Some s"
    by (rule end_session_keeps_inactive [of db sid s, OF Cons.prems])
  have tail: "transitions sid (fst (end_requests reqs (snd (end_session now uid sid' db)))) = 0"
    by (rule Cons.IH [of "snd (end_session now uid sid' db)", OF keep Cons.prems(2)])
  have head: "\<not> (sid' = sid \<and> status (fst (end_session now uid sid' db)) = 200)"
    using end_session_inactive(2) [of db sid s, OF Cons.prems] by blast
  show ?case
    unfolding req end_requests_Cons fst_conv transitions_Cons tail
    using head by simp
qed

lemma no_transition_when_missing:
  "db sid = None \<Longrightarrow> transitions sid (fst (end_requests reqs db)) = 0"
proof (induction reqs arbitrary: db)
  case Nil
  then show ?case by (simp add: transitions_def)
next
  case (Cons req reqs)
  obtain now uid sid' where req: "req = (now, uid, sid')" by (cases req)
  have keep: "snd (end_session now uid sid' db) sid = None"
    by (rule end_session_keeps_missing [of db sid, OF Cons.prems])
  have tail: "transitions sid (fst (end_requests reqs (snd (end_session now uid sid' db)))) = 0"
    by (rule Cons.IH [of "snd (end_session now uid sid' db)", OF keep])
  have head: "\<not> (sid' = sid \<and> status (fst (end_session now uid sid' db)) = 200)"
    using end_session_missing_status [of db sid, OF Cons.prems] by blast
  show ?case
    unfolding req end_requests_Cons fst_conv transitions_Cons tail
    using head by simp
qed

lemma end_requests_keep_inactive:
  "db sid = Some s \<Longrightarrow> \<not> is_active s \<Longrightarrow> snd (end_requests reqs db) sid = Some s"
proof (induction reqs arbitrary: db)
  case Nil
  then show ?case by simp
next
  case (Cons req reqs)
  obtain now uid sid' where req: "req = (now, uid, sid')" by (cases req)
  have keep: "snd (end_session now uid sid' db) sid = Some s"
    by (rule end_session_keeps_inactive [of db sid s, OF Cons.prems])
  show ?case
    unfolding req end_requests_Cons snd_conv
    by (rule Cons.IH [of "snd (end_session now uid sid' db)", OF keep Cons.prems(2)])
qed

lemma transitions_at_most_once:
  "transitions sid (fst (end_requests reqs db)) \<le> 1"
proof (induction reqs arbitrary: db)
  case Nil
  then show ?case by (simp add: transitions_def)
next
  case (Cons req reqs)
  obtain now uid sid' where req: "req = (now, uid, sid')" by (cases req)
  let ?db1 = "snd (end_session now uid sid' db)"
  show ?case
  proof (cases "sid' = sid \<and> status (fst (end_session now uid sid' db)) = 200")
    case True
    then have "\<exists>s'. ?db1 sid = Some s' \<and> \<not> is_active s'"
      using end_session_success [of now uid sid db] by blast
    then obtain s' where "?db1 sid = Some s'" "\<not> is_active s'" by blast
    then have "transitions sid (fst (end_requests reqs ?db1)) = 0"
      by (rule no_transition_when_inactive [of ?db1 sid s'])
    then show ?thesis
      unfolding req end_requests_Cons fst_conv transitions_Cons
      by (simp only: if_P [OF True] add_0_right le_refl)
  next
    case False
    then show ?thesis
      unfolding req end_requests_Cons fst_conv transitions_Cons
      using Cons.IH [of ?db1] by (simp only: if_not_P [OF False] if_False add_0_left)
  qed
qed

text \<open>
  Claim C10. For a session whose \<open>is_active\<close> flag is already false, the end-session
  operation leaves the session store as it was, so \<open>end_time\<close>, \<open>duration_seconds\<close> and
  \<open>metrics\<close> keep their values; to the session's student it answers 400,
  \<open>Session is already ended\<close> (to another user 403, from the ownership check before
  it). No later sequence of end requests changes the record or ends the session again.
  Hence, in any sequence of end requests served one after the other, from any store, at
  most one request ends a given session.
\<close>

theorem ended_session_is_not_ended_again:
  assumes "db sid = Some s" and "\<not> is_active s"
  shows "snd (end_session now uid sid db) = db
         \<and> (uid = student_id s \<longrightarrow>
              fst (end_session now uid sid db) =
                \<lparr>status = 400, success = Some False,
                 message = Some ''Session is already ended'', payload = None\<rparr>)
         \<and> (uid \<noteq> student_id s \<longrightarrow> status (fst (end_session now uid sid db)) = 403)
         \<and> snd (end_requests reqs db) sid = Some s
         \<and> transitions sid (fst (end_requests reqs db)) = 0
         \<and> transitions sid (fst (end_requests reqs db0)) \<le> 1"
  using end_session_inactive [where db = db and sid = sid and s = s and now = now and uid = uid,
          OF assms]
    end_requests_keep_inactive [of db sid s reqs, OF assms]
    no_transition_when_inactive [of db sid s reqs, OF assms]
    transitions_at_most_once [of sid reqs db0]
  by simp

theorem ended_session_is_not_ended_again_witness:
  "example_store ''s2'' = Some idle_session \<and> \<not> is_active idle_session
   \<and> end_session 999000 ''u1'' ''s2'' example_store =
       (\<lparr>status = 400, success = Some False, message = Some ''Session is already ended'',
         payload = None\<rparr>, example_store)
   \<and> map (\<lambda>(i, r). status r)
         (fst (end_requests [(300000, ''u1'', ''s3''), (400000, ''u1'', ''s3'')]
                 (example_store(''s3'' \<mapsto> active_session)))) = [200, 400]
   \<and> map_option duration_seconds
         (snd (end_requests [(300000, ''u1'', ''s3''), (400000, ''u1'', ''s3'')]
                 (example_store(''s3'' \<mapsto> active_session))) ''s3'') = Some (Some 200)"
proof -
  have h1: "example_store ''s2'' = Some idle_session"
    by (simp add: example_store_def)
  have h2: "\<not> is_active idle_session"
    by (simp add: idle_session_def)
  have owner: "''u1'' = student_id idle_session"
    by (simp add: idle_session_def)
  from ended_session_is_not_ended_again
         [where db = example_store and sid = "''s2''" and s = idle_session
            and now = 999000 and uid = "''u1''" and reqs = "[]" and ?db0.0 = example_store,
          OF h1 h2]
  have "snd (end_session 999000 ''u1'' ''s2'' example_store) = example_store"
    and "fst (end_session 999000 ''u1'' ''s2'' example_store) =
           \<lparr>status = 400, success = Some False, message = Some ''Session is already ended'',
            payload = None\<rparr>"
    using owner by blast+
  then have once: "end_session 999000 ''u1'' ''s2'' example_store =
       (\<lparr>status = 400, success = Some False, message = Some ''Session is already ended'',
         payload = None\<rparr>, example_store)"
    by (simp add: prod_eq_iff)
  have twice: "map (\<lambda>(i, r). status r)
         (fst (end_requests [(300000, ''u1'', ''s3''), (400000, ''u1'', ''s3'')]
                 (example_store(''s3'' \<mapsto> active_session)))) = [200, 400]"
    "map_option duration_seconds
         (snd (end_requests [(300000, ''u1'', ''s3''), (400000, ''u1'', ''s3'')]
                 (example_store(''s3'' \<mapsto> active_session))) ''s3'') = Some (Some 200)"
    by (simp_all add: end_session_def active_session_def Let_def)
  from h1 h2 once twice show ?thesis by blast
qed

section \<open>The productivity score\<close>






















section \<open>Aggregation without data\<close>





end
